theory Spec2Isabelle
  imports Complex_Main "HOL-Library.Log_Nat"
begin

section \<open>Python values used by app.py\<close>

subsection \<open>Strings\<close>

text \<open>
  A Python \<open>str\<close> is a sequence of Unicode code points. The text typed by the user may
  hold any of them, so a string is a list of code point numbers. ASCII literals of the
  source are written with \<open>py\<close>.
\<close>

type_synonym codepoint = nat
type_synonym pystr = "codepoint list"

definition py :: "string \<Rightarrow> pystr" where
  "py s = map of_char s"

text \<open>
  The code points that \<open>str.split()\<close> and \<open>str.strip()\<close> (called without an argument)
  treat as whitespace: U+0009..U+000D, U+001C..U+0020, U+0085, U+00A0, U+1680,
  U+2000..U+200A, U+2028, U+2029, U+202F, U+205F and U+3000.
\<close>

definition isspace :: "codepoint \<Rightarrow> bool" where
  "isspace c \<longleftrightarrow>
     (9 \<le> c \<and> c \<le> 13) \<or> (28 \<le> c \<and> c \<le> 32) \<or> c = 133 \<or> c = 160 \<or> c = 5760 \<or>
     (8192 \<le> c \<and> c \<le> 8202) \<or> c = 8232 \<or> c = 8233 \<or> c = 8239 \<or> c = 8287 \<or> c = 12288"

text \<open>
  \<open>text.split()\<close>: skip whitespace; if the string is exhausted stop; otherwise the token
  runs up to the next whitespace character (or the end), and the scan goes on behind it.
\<close>

function split :: "pystr \<Rightarrow> pystr list" where
  "split s =
     (case dropWhile isspace s of
        [] \<Rightarrow> []
      | c # cs \<Rightarrow>
          (c # takeWhile (\<lambda>x. \<not> isspace x) cs) # split (dropWhile (\<lambda>x. \<not> isspace x) cs))"
  by pat_completeness auto
termination
proof (relation "measure length")
  show "wf (measure length)" by simp
next
  fix s :: pystr and c cs
  assume eq: "dropWhile isspace s = c # cs"
  have "length (dropWhile (\<lambda>x. \<not> isspace x) cs) \<le> length cs"
    by (rule length_dropWhile_le)
  also have "length cs < length (dropWhile isspace s)"
    by (simp add: eq)
  also have "length (dropWhile isspace s) \<le> length s"
    by (rule length_dropWhile_le)
  finally show "(dropWhile (\<lambda>x. \<not> isspace x) cs, s) \<in> measure length"
    by simp
qed

declare split.simps [simp del]

text \<open>\<open>text.strip()\<close> removes the whitespace at both ends; a string is truthy when it is
  not empty.\<close>

definition strip :: "pystr \<Rightarrow> pystr" where
  "strip s = rev (dropWhile isspace (rev (dropWhile isspace s)))"

definition truthy :: "pystr \<Rightarrow> bool" where
  "truthy s \<longleftrightarrow> s \<noteq> []"

subsection \<open>Floats\<close>

text \<open>
  A Python \<open>float\<close> is an IEEE 754 binary64 number: a finite value (here the rational
  number it denotes), an infinity or a NaN. The two zeros compare equal in Python and
  \<open>abs\<close> maps both to \<open>0.0\<close>; they are one value here. Every arithmetic operation
  computes the exact result and rounds it to the nearest binary64 number, ties going to
  the even significand.
\<close>

datatype pyfloat = Finite rat | PosInf | NegInf | NaN

text \<open>\<open>ilog2 x\<close> is the exponent \<open>e\<close> with \<open>2\<^sup>e \<le> x < 2\<^sup>e\<^sup>+\<^sup>1\<close>, for positive \<open>x\<close>.\<close>

definition ilog2 :: "rat \<Rightarrow> int" where
  "ilog2 x = (if 1 \<le> x then bitlen \<lfloor>x\<rfloor> - 1 else - bitlen (\<lceil>1 / x\<rceil> - 1))"

definition round_half_even :: "rat \<Rightarrow> int" where
  "round_half_even y =
     (let f = \<lfloor>y\<rfloor>; d = y - of_int f
      in if d < 1 / 2 then f
         else if 1 / 2 < d then f + 1
         else if even f then f else f + 1)"

text \<open>
  The spacing of the binary64 numbers around \<open>x\<close>: 53 significant bits, and the exponent
  never below that of the subnormal numbers.
\<close>

definition quantum :: "rat \<Rightarrow> rat" where
  "quantum x = 2 powi (max (ilog2 \<bar>x\<bar>) (- 1022) - 52)"

definition rnd :: "rat \<Rightarrow> pyfloat" where
  "rnd x =
     (if x = 0 then Finite 0
      else let q = quantum x; r = of_int (round_half_even (x / q)) * q
           in if 2 ^ 1024 \<le> r then PosInf
              else if r \<le> - (2 ^ 1024) then NegInf
              else Finite r)"

text \<open>A decimal literal of the source (\<open>0.5\<close>, \<open>0.1\<close>) denotes the nearest binary64
  number; the integer literal \<open>1\<close> in \<open>1 - ai_prob\<close> is converted the same way.\<close>

definition lit :: "rat \<Rightarrow> pyfloat" where
  "lit q = rnd q"

fun fneg :: "pyfloat \<Rightarrow> pyfloat" where
  "fneg (Finite x) = Finite (- x)"
| "fneg PosInf = NegInf"
| "fneg NegInf = PosInf"
| "fneg NaN = NaN"

fun fadd :: "pyfloat \<Rightarrow> pyfloat \<Rightarrow> pyfloat" where
  "fadd (Finite x) (Finite y) = rnd (x + y)"
| "fadd NaN b = NaN"
| "fadd a NaN = NaN"
| "fadd PosInf NegInf = NaN"
| "fadd NegInf PosInf = NaN"
| "fadd PosInf b = PosInf"
| "fadd NegInf b = NegInf"
| "fadd a PosInf = PosInf"
| "fadd a NegInf = NegInf"

definition fsub :: "pyfloat \<Rightarrow> pyfloat \<Rightarrow> pyfloat" where
  "fsub a b = fadd a (fneg b)"

fun fabs :: "pyfloat \<Rightarrow> pyfloat" where
  "fabs (Finite x) = Finite \<bar>x\<bar>"
| "fabs PosInf = PosInf"
| "fabs NegInf = PosInf"
| "fabs NaN = NaN"

text \<open>\<open>a < b\<close> on floats; every comparison with a NaN is false.\<close>

fun flt :: "pyfloat \<Rightarrow> pyfloat \<Rightarrow> bool" where
  "flt (Finite x) (Finite y) \<longleftrightarrow> x < y"
| "flt NaN b \<longleftrightarrow> False"
| "flt a NaN \<longleftrightarrow> False"
| "flt a NegInf \<longleftrightarrow> False"
| "flt PosInf b \<longleftrightarrow> False"
| "flt NegInf b \<longleftrightarrow> True"
| "flt a PosInf \<longleftrightarrow> True"

text \<open>\<open>a >= b\<close> on floats.\<close>

fun fge :: "pyfloat \<Rightarrow> pyfloat \<Rightarrow> bool" where
  "fge (Finite x) (Finite y) \<longleftrightarrow> y \<le> x"
| "fge NaN b \<longleftrightarrow> False"
| "fge a NaN \<longleftrightarrow> False"
| "fge PosInf b \<longleftrightarrow> True"
| "fge a NegInf \<longleftrightarrow> True"
| "fge NegInf b \<longleftrightarrow> False"
| "fge a PosInf \<longleftrightarrow> False"

section \<open>app.py\<close>

subsection \<open>Prediction function\<close>

text \<open>
  The detector is the Hugging Face pipeline, loaded outside this program; it is a
  parameter. Called on one text with \<open>return_all_scores=True\<close> it returns a list (one
  entry per input) of lists of \<open>{"label": ..., "score": ...}\<close> items, or it fails.
\<close>

record item =
  label :: pystr
  score :: pyfloat

datatype error = ModelFailure | IndexError

type_synonym detector = "pystr \<Rightarrow> error + item list list"

text \<open>\<open>{item["label"]: item["score"] for item in outputs}\<close>: items are stored in order, a
  later item replacing an earlier one with the same label.\<close>

definition scores_of :: "item list \<Rightarrow> (pystr \<rightharpoonup> pyfloat)" where
  "scores_of outputs = fold (\<lambda>it m. m(label it \<mapsto> score it)) outputs Map.empty"

definition dict_get :: "('k \<rightharpoonup> 'v) \<Rightarrow> 'k \<Rightarrow> 'v \<Rightarrow> 'v" where
  "dict_get m k dflt = (case m k of None \<Rightarrow> dflt | Some v \<Rightarrow> v)"

definition predict_ai_probability :: "detector \<Rightarrow> pystr \<Rightarrow> error + pyfloat" where
  "predict_ai_probability detector text =
     (case detector text of
        Inl e \<Rightarrow> Inl e
      | Inr [] \<Rightarrow> Inl IndexError
      | Inr (outputs # _) \<Rightarrow> Inr (dict_get (scores_of outputs) (py ''AI'') (lit (1 / 2))))"

subsection \<open>Uncertainty estimation\<close>

text \<open>The three confidence strings of the source: "Low Confidence", "Medium Confidence"
  and "High Confidence" (each behind a coloured circle).\<close>

datatype confidence = Low_Confidence | Medium_Confidence | High_Confidence

text \<open>The \<open>indicators\<close> dictionary has three fixed keys, in this order:
  "Short text length (<100 words)", "Prediction near 50%", "Low prediction margin".\<close>

record indicators =
  short_text_length :: bool
  prediction_near_50 :: bool
  low_prediction_margin :: bool

definition estimate_confidence ::
  "pystr \<Rightarrow> pyfloat \<Rightarrow> confidence \<times> indicators \<times> nat \<times> pyfloat" where
  "estimate_confidence text ai_prob =
     (let word_count = length (split text);
          margin = fabs (fsub ai_prob (lit (1 / 2)));
          indicators = \<lparr> short_text_length = word_count < 100,
                         prediction_near_50 = flt margin (lit (1 / 10)),
                         low_prediction_margin = flt margin (lit (15 / 100)) \<rparr>;
          confidence =
            (if word_count < 100 \<or> flt margin (lit (1 / 10)) then Low_Confidence
             else if word_count < 200 \<or> flt margin (lit (2 / 10)) then Medium_Confidence
             else High_Confidence)
      in (confidence, indicators, word_count, margin))"

text \<open>The components of the returned tuple, as line 88 unpacks it.\<close>

definition confidence_of :: "confidence \<times> indicators \<times> nat \<times> pyfloat \<Rightarrow> confidence" where
  "confidence_of r = fst r"

definition indicators_of :: "confidence \<times> indicators \<times> nat \<times> pyfloat \<Rightarrow> indicators" where
  "indicators_of r = fst (snd r)"

definition word_count_of :: "confidence \<times> indicators \<times> nat \<times> pyfloat \<Rightarrow> nat" where
  "word_count_of r = fst (snd (snd r))"

definition margin_of :: "confidence \<times> indicators \<times> nat \<times> pyfloat \<Rightarrow> pyfloat" where
  "margin_of r = snd (snd (snd r))"

subsection \<open>Inference and UI update\<close>

text \<open>
  What one run of the page does from line 83 on, given the state of the button and the
  content of the text area: the calls of the two functions and the Streamlit elements, in
  program order. A metric and the margin line carry the float they format; captions are
  given without their emoji.
\<close>

datatype ui_event =
    Call_predict pystr
  | Call_estimate pystr pyfloat
  | Header string
  | Metric string pyfloat
  | Divider
  | Markdown_confidence confidence
  | Markdown_word_count nat
  | Markdown_margin pyfloat
  | Markdown string
  | Markdown_indicator bool string
  | Subheader string
  | Bar_chart pyfloat pyfloat
  | Info string
  | Warning string

definition human_prob_of :: "pyfloat \<Rightarrow> pyfloat" where
  "human_prob_of ai_prob = fsub (lit 1) ai_prob"

definition indicator_items :: "indicators \<Rightarrow> (string \<times> bool) list" where
  "indicator_items ind =
     [(''Short text length (<100 words)'', short_text_length ind),
      (''Prediction near 50%'', prediction_near_50 ind),
      (''Low prediction margin'', low_prediction_margin ind)]"

definition analyze :: "detector \<Rightarrow> bool \<Rightarrow> pystr \<Rightarrow> error + ui_event list" where
  "analyze detector analyze_btn user_text =
     (if analyze_btn \<and> truthy (strip user_text) then
        (case predict_ai_probability detector user_text of
           Inl e \<Rightarrow> Inl e
         | Inr ai_prob \<Rightarrow>
             (let human_prob = human_prob_of ai_prob;
                  (confidence, indicators, word_count, margin) =
                     estimate_confidence user_text ai_prob
              in Inr ([Call_predict user_text,
                       Call_estimate user_text ai_prob,
                       Header ''Detection Result'',
                       Metric ''AI Probability'' ai_prob,
                       Metric ''Human Probability'' human_prob,
                       Divider,
                       Header ''Model Uncertainty'',
                       Markdown_confidence confidence,
                       Markdown_word_count word_count,
                       Markdown_margin margin,
                       Markdown ''Uncertainty Indicators:'']
                      @ map (\<lambda>(k, v). Markdown_indicator v k) (indicator_items indicators)
                      @ [Divider,
                         Header ''System Limitations'',
                         Markdown ''limitations'',
                         Subheader ''Probability Visualization'',
                         Bar_chart ai_prob human_prob,
                         Info ''Interpret results with caution.''])))
      else if analyze_btn then Inr [Warning ''Please enter some text before analysis.'']
      else Inr [])"

section \<open>The specification's word count\<close>

text \<open>
  The specification calls \<open>word_count\<close> the number of whitespace-delimited tokens of the
  text. A token starts at every position that holds a non-whitespace character and is
  either the first position or preceded by a whitespace character; \<open>token_count\<close>
  counts these positions, without reference to \<open>split\<close>.
\<close>

definition token_count :: "pystr \<Rightarrow> nat" where
  "token_count text =
     length (filter (\<lambda>i. \<not> isspace (text ! i) \<and> (i = 0 \<or> isspace (text ! (i - 1))))
                    [0..<length text])"

text \<open>The same count as a scan from the left that remembers whether the previous
  character was whitespace; it links \<open>token_count\<close> to \<open>split\<close>.\<close>

fun starts :: "bool \<Rightarrow> pystr \<Rightarrow> nat" where
  "starts prev [] = 0"
| "starts prev (c # cs) = (if \<not> isspace c \<and> prev then 1 else 0) + starts (isspace c) cs"

text \<open>A text of \<open>n\<close> words, for the concrete instances below: \<open>n\<close> copies of "ab ".\<close>

definition sample_text :: "nat \<Rightarrow> pystr" where
  "sample_text n = concat (replicate n (py ''ab ''))"

section \<open>Facts about strings\<close>

lemma split_Nil: "split [] = []"
  by (simp add: split.simps)

lemma split_space: "isspace c \<Longrightarrow> split (c # cs) = split cs"
  by (simp add: split.simps [of "c # cs"] split.simps [of cs])

lemma split_nonspace:
  "\<not> isspace c \<Longrightarrow>
   split (c # cs) = (c # takeWhile (\<lambda>x. \<not> isspace x) cs) # split (dropWhile (\<lambda>x. \<not> isspace x) cs)"
  by (simp add: split.simps [of "c # cs"])

lemma split_empty_iff: "split s = [] \<longleftrightarrow> (\<forall>c\<in>set s. isspace c)"
proof (induction s)
  case Nil
  show ?case by (simp add: split_Nil)
next
  case (Cons a s)
  show ?case
  proof (cases "isspace a")
    case True
    with Cons show ?thesis by (simp add: split_space)
  next
    case False
    then show ?thesis by (auto simp: split_nonspace)
  qed
qed

lemma strip_Nil_iff: "strip s = [] \<longleftrightarrow> (\<forall>c\<in>set s. isspace c)"
proof
  assume "\<forall>c\<in>set s. isspace c"
  then have d: "dropWhile isspace s = []" by simp
  show "strip s = []" unfolding strip_def d by simp
next
  assume e: "strip s = []"
  show "\<forall>c\<in>set s. isspace c"
  proof (rule ccontr)
    assume "\<not> (\<forall>c\<in>set s. isspace c)"
    then have ne: "dropWhile isspace s \<noteq> []" by simp
    then have "\<not> isspace (hd (dropWhile isspace s))" by (rule hd_dropWhile)
    moreover have "hd (dropWhile isspace s) \<in> set (dropWhile isspace s)"
      using ne by (rule hd_in_set)
    ultimately have "\<exists>x\<in>set (dropWhile isspace s). \<not> isspace x" by blast
    then have "dropWhile isspace (rev (dropWhile isspace s)) \<noteq> []" by simp
    with e show False by (simp add: strip_def)
  qed
qed

lemma truthy_strip_iff: "truthy (strip s) \<longleftrightarrow> (\<exists>c\<in>set s. \<not> isspace c)"
  by (simp add: truthy_def strip_Nil_iff)

lemma word_count_sample_text: "length (split (sample_text n)) = n"
  unfolding sample_text_def
  by (induction n) (simp_all add: split_Nil split_space split_nonspace py_def isspace_def)

lemma starts_split:
  "starts True s = length (split s) \<and>
   starts False s = length (split (dropWhile (\<lambda>x. \<not> isspace x) s))"
proof (induction s)
  case Nil
  show ?case by (simp add: split_Nil)
next
  case (Cons x xs)
  show ?case
  proof (cases "isspace x")
    case True
    with Cons show ?thesis by (simp add: split_space)
  next
    case False
    with Cons show ?thesis by (simp add: split_nonspace)
  qed
qed

lemma count_starts:
  "length (filter (\<lambda>i. \<not> isspace (s ! i) \<and> (if i = 0 then prev else isspace (s ! (i - 1))))
                  [0..<length s]) = starts prev s"
proof (induction s arbitrary: prev)
  case Nil
  show ?case by simp
next
  case (Cons c cs)
  let ?P = "\<lambda>i. \<not> isspace ((c # cs) ! i) \<and> (if i = 0 then prev else isspace ((c # cs) ! (i - 1)))"
  let ?Q = "\<lambda>i. \<not> isspace (cs ! i) \<and> (if i = 0 then isspace c else isspace (cs ! (i - 1)))"
  have up: "[0..<length (c # cs)] = 0 # map Suc [0..<length cs]"
    by (simp add: upt_conv_Cons map_Suc_upt del: upt_Suc)
  have PQ: "?P \<circ> Suc = ?Q"
    by (rule ext) (simp add: nth_Cons')
  have "length (filter ?P [0..<length (c # cs)])
      = (if ?P 0 then 1 else 0) + length (filter (?P \<circ> Suc) [0..<length cs])"
    unfolding up by (simp add: filter_map del: upt_Suc)
  also have "\<dots> = (if \<not> isspace c \<and> prev then 1 else 0) + starts (isspace c) cs"
    unfolding PQ Cons.IH by simp
  finally show ?case by simp
qed

lemma word_count_token_count: "length (split text) = token_count text"
proof -
  have "(\<lambda>i. \<not> isspace (text ! i) \<and> (i = 0 \<or> isspace (text ! (i - 1))))
      = (\<lambda>i. \<not> isspace (text ! i) \<and> (if i = 0 then True else isspace (text ! (i - 1))))"
    by (rule ext) simp
  then have "token_count text = starts True text"
    unfolding token_count_def by (simp only: count_starts)
  then show ?thesis by (simp add: starts_split)
qed

section \<open>Facts about rounding\<close>

lemma ilog2_bounds:
  assumes "0 < x"
  shows "2 powi (ilog2 x) \<le> x \<and> x < 2 powi (ilog2 x + 1)"
proof (cases "1 \<le> x")
  case True
  define n where "n = \<lfloor>x\<rfloor>"
  have n1: "1 \<le> n" using True by (simp add: n_def le_floor_iff)
  then have b: "2 ^ nat (bitlen n - 1) \<le> n" "n < 2 ^ nat (bitlen n)"
    using bitlen_bounds [of n] by auto
  have bl: "1 \<le> bitlen n"
  proof (rule ccontr)
    assume "\<not> 1 \<le> bitlen n"
    then have "nat (bitlen n) = 0" by simp
    with b(2) n1 show False by simp
  qed
  have il: "ilog2 x = bitlen n - 1" using True by (simp add: ilog2_def n_def)
  have "(2::rat) powi (bitlen n - 1) = of_int (2 ^ nat (bitlen n - 1))"
    using bl by (simp add: power_int_nonneg_exp)
  also have "\<dots> \<le> of_int n" using b(1) by (simp only: of_int_le_iff)
  also have "\<dots> \<le> x" by (simp add: n_def)
  finally have lo: "2 powi (ilog2 x) \<le> x" by (simp add: il)
  have "x < of_int (n + 1)" using floor_correct [of x] by (simp add: n_def)
  also have "(of_int (n + 1) :: rat) \<le> of_int (2 ^ nat (bitlen n))"
    using b(2) by (subst of_int_le_iff) linarith
  also have "\<dots> = 2 powi (bitlen n)"
    using bl by (simp add: power_int_nonneg_exp)
  finally have "x < 2 powi (ilog2 x + 1)" by (simp add: il)
  with lo show ?thesis by simp
next
  case False
  define y where "y = 1 / x"
  define m where "m = \<lceil>y\<rceil> - 1"
  have y1: "1 < y" using False assms by (simp add: y_def)
  have xy: "x = 1 / y" by (simp add: y_def)
  have m1: "1 \<le> m" using y1 by (simp add: m_def less_ceiling_iff)
  then have b: "2 ^ nat (bitlen m - 1) \<le> m" "m < 2 ^ nat (bitlen m)"
    using bitlen_bounds [of m] by auto
  have bl: "1 \<le> bitlen m"
  proof (rule ccontr)
    assume "\<not> 1 \<le> bitlen m"
    then have "nat (bitlen m) = 0" by simp
    with b(2) m1 show False by simp
  qed
  have il: "ilog2 x = - bitlen m" using False by (simp add: ilog2_def m_def y_def)
  have my: "of_int m < y" unfolding m_def using ceiling_correct [of y] by simp
  have ym: "y \<le> of_int (m + 1)" unfolding m_def by simp
  have "y \<le> of_int (m + 1)" by (rule ym)
  also have "(of_int (m + 1) :: rat) \<le> of_int (2 ^ nat (bitlen m))"
    using b(2) by (subst of_int_le_iff) linarith
  also have "\<dots> = 2 powi (bitlen m)"
    using bl by (simp add: power_int_nonneg_exp)
  finally have yle: "y \<le> 2 powi (bitlen m)" .
  have "(2::rat) powi (bitlen m - 1) = of_int (2 ^ nat (bitlen m - 1))"
    using bl by (simp add: power_int_nonneg_exp)
  also have "\<dots> \<le> of_int m" using b(1) by (simp only: of_int_le_iff)
  also have "\<dots> < y" by (rule my)
  finally have ylt: "2 powi (bitlen m - 1) < y" .
  have p1: "(0::rat) < 2 powi (bitlen m)" and p2: "(0::rat) < 2 powi (bitlen m - 1)"
    by simp_all
  have "2 powi (- bitlen m) = 1 / ((2::rat) powi (bitlen m))"
    by (rule power_int_minus_divide)
  also have "\<dots> \<le> 1 / y" using yle y1 by (simp add: frac_le)
  finally have "2 powi (- bitlen m) \<le> 1 / y" .
  then have lo: "2 powi (ilog2 x) \<le> x" unfolding il by (simp add: y_def)
  have "1 / y < 1 / ((2::rat) powi (bitlen m - 1))"
    using ylt p2 by (simp add: frac_less2)
  also have "\<dots> = 2 powi (- (bitlen m - 1))"
    by (rule power_int_minus_divide [symmetric])
  finally have "1 / y < 2 powi (- (bitlen m - 1))" .
  then have "x < 2 powi (ilog2 x + 1)" unfolding il by (simp add: y_def)
  with lo show ?thesis by simp
qed

lemma ilog2_unique:
  assumes "0 < x" and "2 powi e \<le> x" and "x < 2 powi (e + 1)"
  shows "ilog2 x = e"
proof -
  from ilog2_bounds [OF assms(1)]
  have a: "2 powi (ilog2 x) \<le> x" "x < 2 powi (ilog2 x + 1)" by auto
  have "(2::rat) powi e < 2 powi (ilog2 x + 1)" using assms(2) a(2) by linarith
  then have 1: "e < ilog2 x + 1"
    by (metis power_int_increasing not_less one_le_numeral)
  have "(2::rat) powi (ilog2 x) < 2 powi (e + 1)" using assms(3) a(1) by linarith
  then have 2: "ilog2 x < e + 1"
    by (metis power_int_increasing not_less one_le_numeral)
  from 1 2 show ?thesis by simp
qed


lemma quantum_binade:
  assumes "x \<noteq> 0" and "2 powi e \<le> \<bar>x\<bar>" and "\<bar>x\<bar> < 2 powi (e + 1)"
  shows "quantum x = 2 powi (max e (- 1022) - 52)"
proof -
  have "0 < \<bar>x\<bar>" using assms(1) by simp
  then have "ilog2 \<bar>x\<bar> = e" using assms(2,3) by (rule ilog2_unique)
  then show ?thesis by (simp add: quantum_def)
qed

lemma quantum_pos: "0 < quantum x"
  by (simp add: quantum_def)

lemma quantum_minus: "quantum (- x) = quantum x"
  by (simp add: quantum_def)

lemma round_half_even_error: "\<bar>of_int (round_half_even y) - y\<bar> \<le> 1 / 2"
proof -
  have "of_int \<lfloor>y\<rfloor> \<le> y" "y < of_int \<lfloor>y\<rfloor> + 1"
    using floor_correct [of y] by simp_all
  then show ?thesis
    by (auto simp: round_half_even_def Let_def)
qed

lemma round_half_even_of_int: "round_half_even (of_int n) = n"
  by (simp add: round_half_even_def)

lemma round_half_even_minus: "round_half_even (- y) = - round_half_even y"
proof -
  define f where "f = \<lfloor>y\<rfloor>"
  have fl: "of_int f \<le> y" "y < of_int f + 1"
    using floor_correct [of y] by (simp_all add: f_def)
  show ?thesis
  proof (cases "y = of_int f")
    case True
    then have "round_half_even y = f" "round_half_even (- y) = - f"
      using round_half_even_of_int [of f] round_half_even_of_int [of "- f"] by simp_all
    then show ?thesis by simp
  next
    case False
    have nf: "\<lfloor>- y\<rfloor> = - f - 1"
      using fl False by (intro floor_unique) simp_all
    have yf: "\<lfloor>y\<rfloor> = f" by (simp add: f_def)
    have ev: "even (- f - 1) \<longleftrightarrow> odd f" by simp
    show ?thesis
      unfolding round_half_even_def Let_def nf yf
      using fl False by (auto simp: ev)
  qed
qed

lemma rnd_minus: "rnd (- x) = fneg (rnd x)"
proof (cases "x = 0")
  case True
  then show ?thesis by (simp add: rnd_def)
next
  case False
  have pos: "(0::rat) < 2 ^ 1024" by simp
  define B :: rat where "B = 2 ^ 1024"
  have B: "0 < B" by (simp add: B_def)
  define r where "r = of_int (round_half_even (x / quantum x)) * quantum x"
  have r': "of_int (round_half_even (- x / quantum x)) * quantum x = - r"
    using round_half_even_minus [of "x / quantum x"] by (simp add: r_def)
  have 1: "rnd x = (if B \<le> r then PosInf else if r \<le> - B then NegInf else Finite r)"
    using False by (simp add: rnd_def Let_def r_def B_def)
  have 2: "rnd (- x) = (if B \<le> - r then PosInf else if - r \<le> - B then NegInf else Finite (- r))"
    using False unfolding rnd_def Let_def quantum_minus r' B_def by simp
  show ?thesis unfolding 1 2 using B by auto
qed

lemma round_quantum_error:
  assumes "0 < q"
  shows "\<bar>of_int (round_half_even (x / q)) * q - x\<bar> \<le> q / 2"
proof -
  have "of_int (round_half_even (x / q)) * q - x = (of_int (round_half_even (x / q)) - x / q) * q"
    using assms by (simp add: field_simps)
  then have "\<bar>of_int (round_half_even (x / q)) * q - x\<bar> = \<bar>of_int (round_half_even (x / q)) - x / q\<bar> * q"
    using assms by (simp add: abs_mult)
  also have "\<dots> \<le> (1 / 2) * q"
    using round_half_even_error [of "x / q"] assms by (intro mult_right_mono) simp_all
  finally show ?thesis by simp
qed

lemma rnd_binade:
  assumes "x \<noteq> 0" and "2 powi e \<le> \<bar>x\<bar>" and "\<bar>x\<bar> < 2 powi (e + 1)" and "e \<le> 1022"
  shows "rnd x = Finite (of_int (round_half_even (x / 2 powi (max e (- 1022) - 52)))
                          * 2 powi (max e (- 1022) - 52))"
proof -
  define q :: rat where "q = 2 powi (max e (- 1022) - 52)"
  define r where "r = of_int (round_half_even (x / q)) * q"
  have qx: "quantum x = q"
    using quantum_binade [OF assms(1-3)] by (simp add: q_def)
  have q0: "0 < q" by (simp add: q_def)
  have err: "\<bar>r - x\<bar> \<le> q / 2" unfolding r_def using q0 by (rule round_quantum_error)
  have "q \<le> 2 powi 1023" unfolding q_def using assms(4) by (intro power_int_increasing) simp_all
  then have q2: "q / 2 < 2 powi 1023" using q0 by linarith
  have "(2::rat) powi (e + 1) \<le> 2 powi 1023"
    using assms(4) by (intro power_int_increasing) simp_all
  with assms(3) have "\<bar>x\<bar> < 2 powi 1023" by linarith
  with err q2 have "\<bar>r\<bar> < 2 powi 1023 + 2 powi 1023" by linarith
  also have "\<dots> = 2 ^ 1024" by simp
  finally have "\<bar>r\<bar> < 2 ^ 1024" .
  then have "\<not> 2 ^ 1024 \<le> r" "\<not> r \<le> - (2 ^ 1024)" by linarith+
  then show ?thesis
    using assms(1) unfolding rnd_def Let_def qx r_def [symmetric] q_def [symmetric] by simp
qed

lemma floor_divide_numeral_rat:
  "\<lfloor>numeral a / (numeral b :: rat)\<rfloor> = numeral a div numeral b"
  using floor_divide_of_int_eq [of "numeral a" "numeral b", where ?'a = rat] by simp

lemma lit_half: "lit (1 / 2) = Finite (1 / 2)"
  unfolding lit_def by (subst rnd_binade [where e = "- 1"]) (simp_all add: round_half_even_def Let_def floor_divide_numeral_rat)

lemma lit_one: "lit 1 = Finite 1"
  unfolding lit_def by (subst rnd_binade [where e = 0]) (simp_all add: round_half_even_def Let_def floor_divide_numeral_rat)

lemma lit_0_1: "lit (1 / 10) = Finite (3602879701896397 / 36028797018963968)"
  unfolding lit_def by (subst rnd_binade [where e = "- 4"]) (simp_all add: round_half_even_def Let_def floor_divide_numeral_rat)

lemma lit_0_15: "lit (15 / 100) = Finite (5404319552844595 / 36028797018963968)"
  unfolding lit_def by (subst rnd_binade [where e = "- 3"]) (simp_all add: round_half_even_def Let_def floor_divide_numeral_rat)

lemma lit_0_2: "lit (2 / 10) = Finite (3602879701896397 / 18014398509481984)"
  unfolding lit_def by (subst rnd_binade [where e = "- 3"]) (simp_all add: round_half_even_def Let_def floor_divide_numeral_rat)

lemma round_half_even_eqI:
  assumes "\<bar>t - of_int n\<bar> < 1 / 2 \<or> (\<bar>t - of_int n\<bar> = 1 / 2 \<and> even n)"
  shows "round_half_even t = n"
proof (cases "of_int n \<le> t")
  case True
  with assms have "\<lfloor>t\<rfloor> = n" by (intro floor_unique) auto
  with assms True show ?thesis by (auto simp: round_half_even_def Let_def)
next
  case False
  with assms have fl: "\<lfloor>t\<rfloor> = n - 1" by (intro floor_unique) auto
  have ev: "even (n - 1) \<longleftrightarrow> odd n" by simp
  from assms False show ?thesis
    unfolding round_half_even_def Let_def fl by (auto simp: ev)
qed

lemma rnd_one: "rnd 1 = Finite 1"
  using lit_one by (simp add: lit_def)

lemma rnd_unit_error:
  assumes "0 \<le> y" and "y \<le> 1"
  shows "\<exists>h. rnd y = Finite h \<and> \<bar>h - y\<bar> \<le> 1 / 2 ^ 54"
proof -
  consider "y = 0" | "y = 1" | "0 < y" "y < 1" using assms by fastforce
  then show ?thesis
  proof cases
    case 1
    then show ?thesis by (simp add: rnd_def)
  next
    case 2
    then show ?thesis by (simp add: rnd_one)
  next
    case 3
    define e where "e = ilog2 y"
    have b: "2 powi e \<le> y" "y < 2 powi (e + 1)"
      using ilog2_bounds [OF 3(1)] by (simp_all add: e_def)
    have "(2::rat) powi e < 2 powi 0" using b(1) 3(2) by simp
    then have e: "e < 0" by (metis power_int_increasing not_less one_le_numeral)
    define q :: rat where "q = 2 powi (max e (- 1022) - 52)"
    define r where "r = of_int (round_half_even (y / q)) * q"
    have "rnd y = Finite r"
      unfolding r_def q_def using 3(1) b e by (intro rnd_binade) simp_all
    moreover have q0: "0 < q" by (simp add: q_def)
    have "\<bar>r - y\<bar> \<le> q / 2" unfolding r_def using q0 by (rule round_quantum_error)
    moreover have "q \<le> 2 powi (- 53)"
      unfolding q_def using e by (intro power_int_increasing) simp_all
    then have "q / 2 \<le> 1 / 2 ^ 54" by simp
    ultimately show ?thesis by fastforce
  qed
qed

lemma rnd_near_one:
  assumes "1 - 1 / 2 ^ 54 \<le> s" and "s \<le> 1 + 1 / 2 ^ 54"
  shows "rnd s = Finite 1"
proof (cases "1 \<le> s")
  case True
  have "rnd s = Finite (of_int (round_half_even (s / 2 powi (max 0 (- 1022) - 52)))
      * 2 powi (max 0 (- 1022) - 52))"
    using True assms(2) by (intro rnd_binade) simp_all
  moreover have "round_half_even (s / 2 powi (max 0 (- 1022) - 52)) = 2 ^ 52"
    using True assms(2) by (intro round_half_even_eqI) (simp add: field_simps)
  ultimately show ?thesis by simp
next
  case False
  have "rnd s = Finite (of_int (round_half_even (s / 2 powi (max (- 1) (- 1022) - 52)))
      * 2 powi (max (- 1) (- 1022) - 52))"
    using False assms(1) by (intro rnd_binade) simp_all
  moreover have "round_half_even (s / 2 powi (max (- 1) (- 1022) - 52)) = 2 ^ 53"
    using False assms(1) by (intro round_half_even_eqI) (auto simp: field_simps)
  ultimately show ?thesis by simp
qed

lemma fabs_fneg: "fabs (fneg a) = fabs a"
  by (cases a) simp_all

lemma fabs_rnd_nonneg:
  assumes "0 \<le> y"
  shows "fabs (rnd y) = rnd y"
proof -
  have "0 \<le> of_int (round_half_even (y / quantum y)) * quantum y"
    using assms quantum_pos [of y]
    by (auto simp: zero_le_mult_iff zero_le_divide_iff round_half_even_def Let_def)
  then show ?thesis
    by (auto simp: rnd_def Let_def abs_if)
qed

lemma fabs_rnd: "fabs (rnd y) = rnd \<bar>y\<bar>"
proof (cases "0 \<le> y")
  case True
  then show ?thesis by (simp add: fabs_rnd_nonneg)
next
  case False
  have "rnd y = fneg (rnd (- y))"
    using rnd_minus [of "- y"] by simp
  then have "fabs (rnd y) = fabs (rnd (- y))"
    by (simp add: fabs_fneg)
  also have "\<dots> = rnd (- y)"
    using False by (intro fabs_rnd_nonneg) simp
  also have "- y = \<bar>y\<bar>"
    using False by simp
  finally show ?thesis .
qed

section \<open>Concrete floats\<close>

text \<open>The binary64 values of the literals 0.62, 0.67 and 0.95, and of the margins they
  give; each subtraction of 0.5 below is exact.\<close>

lemma lit_0_62: "lit (62 / 100) = Finite (5584463537939415 / 9007199254740992)"
  unfolding lit_def by (subst rnd_binade [where e = "- 1"])
    (simp_all add: round_half_even_def Let_def floor_divide_numeral_rat)

lemma lit_0_67: "lit (67 / 100) = Finite (6034823500676465 / 9007199254740992)"
  unfolding lit_def by (subst rnd_binade [where e = "- 1"])
    (simp_all add: round_half_even_def Let_def floor_divide_numeral_rat)

lemma lit_0_95: "lit (95 / 100) = Finite (4278419646001971 / 4503599627370496)"
  unfolding lit_def by (subst rnd_binade [where e = "- 1"])
    (simp_all add: round_half_even_def Let_def floor_divide_numeral_rat)

lemma rnd_0_12: "rnd (1080863910568919 / 9007199254740992) = Finite (1080863910568919 / 9007199254740992)"
  by (subst rnd_binade [where e = "- 4"])
    (simp_all add: round_half_even_def Let_def floor_divide_numeral_rat)

lemma rnd_0_17: "rnd (1531223873305969 / 9007199254740992) = Finite (1531223873305969 / 9007199254740992)"
  by (subst rnd_binade [where e = "- 3"])
    (simp_all add: round_half_even_def Let_def floor_divide_numeral_rat)

lemma rnd_0_45: "rnd (2026619832316723 / 4503599627370496) = Finite (2026619832316723 / 4503599627370496)"
  by (subst rnd_binade [where e = "- 2"])
    (simp_all add: round_half_even_def Let_def floor_divide_numeral_rat)

lemma rnd_three_quarters: "rnd (3 / 4) = Finite (3 / 4)"
  by (subst rnd_binade [where e = "- 1"])
    (simp_all add: round_half_even_def Let_def floor_divide_numeral_rat)

lemma rnd_quarter: "rnd (1 / 4) = Finite (1 / 4)"
  by (subst rnd_binade [where e = "- 2"])
    (simp_all add: round_half_even_def Let_def floor_divide_numeral_rat)

text \<open>The floats \<open>0.5 + 0.2\<close> and \<open>0.5 - 0.2\<close> and their margins: the sum is rounded
  down, the difference is exact.\<close>

lemma rnd_half_plus:
  "rnd (12610078956637389 / 18014398509481984) = Finite (3152519739159347 / 4503599627370496)"
  by (subst rnd_binade [where e = "- 1"])
    (simp_all add: round_half_even_def Let_def floor_divide_numeral_rat)

lemma rnd_half_minus:
  "rnd (5404319552844595 / 18014398509481984) = Finite (5404319552844595 / 18014398509481984)"
  by (subst rnd_binade [where e = "- 2"])
    (simp_all add: round_half_even_def Let_def floor_divide_numeral_rat)

lemma rnd_margin_plus:
  "rnd (900719925474099 / 4503599627370496) = Finite (900719925474099 / 4503599627370496)"
  by (subst rnd_binade [where e = "- 3"])
    (simp_all add: round_half_even_def Let_def floor_divide_numeral_rat)

lemma rnd_margin_minus:
  "rnd (3602879701896397 / 18014398509481984) = Finite (3602879701896397 / 18014398509481984)"
  by (subst rnd_binade [where e = "- 3"])
    (simp_all add: round_half_even_def Let_def floor_divide_numeral_rat)

lemma lit_reduced:
  "lit (31 / 50) = Finite (5584463537939415 / 9007199254740992)"
  "lit (19 / 20) = Finite (4278419646001971 / 4503599627370496)"
  "lit (3 / 20) = Finite (5404319552844595 / 36028797018963968)"
  "lit (1 / 5) = Finite (3602879701896397 / 18014398509481984)"
  using lit_0_62 lit_0_95 lit_0_15 lit_0_2 by simp_all

lemmas float_evals =
  lit_reduced lit_half lit_one lit_0_1 lit_0_15 lit_0_2 lit_0_62 lit_0_67 lit_0_95
  rnd_0_12 rnd_0_17 rnd_0_45 rnd_three_quarters rnd_quarter
  rnd_half_plus rnd_half_minus rnd_margin_plus rnd_margin_minus
  rnd_minus fsub_def

lemma flt_0_15_imp_0_2: "flt m (lit (15 / 100)) \<Longrightarrow> flt m (lit (2 / 10))"
  unfolding lit_0_15 lit_0_2 by (cases m) simp_all

lemma flt_0_1_imp_0_2: "flt m (lit (1 / 10)) \<Longrightarrow> flt m (lit (2 / 10))"
  unfolding lit_0_1 lit_0_2 by (cases m) simp_all

lemma fge_not_flt: "fge a b \<Longrightarrow> \<not> flt a b"
  by (cases a; cases b) simp_all

lemma margin_evals:
  "fabs (fsub (lit (62 / 100)) (lit (1 / 2))) = Finite (1080863910568919 / 9007199254740992)"
  "fabs (fsub (lit (67 / 100)) (lit (1 / 2))) = Finite (1531223873305969 / 9007199254740992)"
  "fabs (fsub (lit (95 / 100)) (lit (1 / 2))) = Finite (2026619832316723 / 4503599627370496)"
  "fadd (lit (1 / 2)) (lit (2 / 10)) = Finite (3152519739159347 / 4503599627370496)"
  "fsub (lit (1 / 2)) (lit (2 / 10)) = Finite (5404319552844595 / 18014398509481984)"
  "fabs (fsub (Finite (3152519739159347 / 4503599627370496)) (lit (1 / 2)))
     = Finite (900719925474099 / 4503599627370496)"
  "fabs (fsub (Finite (5404319552844595 / 18014398509481984)) (lit (1 / 2)))
     = Finite (3602879701896397 / 18014398509481984)"
  by (simp_all add: float_evals)

section \<open>Facts about the program\<close>

lemma estimate_confidence_parts:
  "word_count_of (estimate_confidence text p) = length (split text)"
  "margin_of (estimate_confidence text p) = fabs (fsub p (lit (1 / 2)))"
  "confidence_of (estimate_confidence text p) =
     (if length (split text) < 100 \<or> flt (fabs (fsub p (lit (1 / 2)))) (lit (1 / 10))
      then Low_Confidence
      else if length (split text) < 200 \<or> flt (fabs (fsub p (lit (1 / 2)))) (lit (2 / 10))
      then Medium_Confidence
      else High_Confidence)"
  "indicators_of (estimate_confidence text p) =
     \<lparr> short_text_length = length (split text) < 100,
       prediction_near_50 = flt (fabs (fsub p (lit (1 / 2)))) (lit (1 / 10)),
       low_prediction_margin = flt (fabs (fsub p (lit (1 / 2)))) (lit (15 / 100)) \<rparr>"
  by (simp_all add: estimate_confidence_def Let_def confidence_of_def indicators_of_def
      word_count_of_def margin_of_def)

lemma fold_scores:
  "fold (\<lambda>it m. m(label it \<mapsto> score it)) outputs m k =
     (case filter (\<lambda>it. label it = k) outputs of
        [] \<Rightarrow> m k
      | x # xs \<Rightarrow> Some (score (last (x # xs))))"
  by (induction outputs arbitrary: m) (auto split: list.splits)

lemma scores_of_absent:
  "\<forall>it\<in>set outputs. label it \<noteq> k \<Longrightarrow> scores_of outputs k = None"
  unfolding scores_of_def fold_scores by (simp add: filter_empty_conv split: list.splits)

lemma scores_of_present:
  "\<exists>it\<in>set outputs. label it = k \<Longrightarrow>
   scores_of outputs k = Some (score (last (filter (\<lambda>it. label it = k) outputs)))"
  unfolding scores_of_def fold_scores by (auto simp: filter_empty_conv split: list.splits)

text \<open>For a finite probability the margin is the exact distance from one half, rounded
  to a binary64 number.\<close>

lemma margin_finite:
  "margin_of (estimate_confidence text (Finite x)) = rnd \<bar>x - 1 / 2\<bar>"
  by (simp add: estimate_confidence_parts fsub_def lit_half fabs_rnd)

section \<open>Properties\<close>

text \<open>
  C1. The tier is decided by the ordered rules, the first match winning: Low if
  \<open>word_count < 100\<close> or \<open>margin < 0.1\<close>; otherwise Medium if \<open>word_count < 200\<close> or
  \<open>margin < 0.2\<close>; otherwise High. Here \<open>word_count\<close> is the number of
  whitespace-delimited tokens of the text (\<open>token_count\<close>, which does not mention
  \<open>split\<close>) and \<open>margin\<close> is \<open>abs(ai_probability - 0.5)\<close>.
\<close>

theorem estimate_confidence_rules:
  "word_count_of (estimate_confidence text ai_prob) = token_count text \<and>
   margin_of (estimate_confidence text ai_prob) = fabs (fsub ai_prob (lit (1 / 2))) \<and>
   confidence_of (estimate_confidence text ai_prob) =
     (if token_count text < 100 \<or> flt (fabs (fsub ai_prob (lit (1 / 2)))) (lit (1 / 10))
      then Low_Confidence
      else if token_count text < 200 \<or> flt (fabs (fsub ai_prob (lit (1 / 2)))) (lit (2 / 10))
      then Medium_Confidence
      else High_Confidence)"
  by (simp add: estimate_confidence_parts word_count_token_count)

theorem estimate_confidence_rules_witness:
  "token_count (sample_text 150) = 150 \<and>
   word_count_of (estimate_confidence (sample_text 150) (lit (62 / 100))) = 150 \<and>
   margin_of (estimate_confidence (sample_text 150) (lit (62 / 100)))
     = Finite (1080863910568919 / 9007199254740992) \<and>
   confidence_of (estimate_confidence (sample_text 150) (lit (62 / 100))) = Medium_Confidence"
proof -
  have t: "token_count (sample_text 150) = 150"
    using word_count_token_count [of "sample_text 150"] by (simp add: word_count_sample_text)
  show ?thesis
    using estimate_confidence_rules [of "sample_text 150" "lit (62 / 100)"]
    by (simp add: t margin_evals float_evals)
qed

text \<open>
  C2. For every probability \<open>p\<close> between 0 and 1, the human probability that the page
  computes is the float \<open>1 - p\<close>, and the pair sums to exactly 1: adding the two floats
  gives \<open>1.0\<close>. The arithmetic is the program's, on binary64 numbers. The exact value of
  \<open>1 - p\<close> need not be a binary64 number (it is rounded, by at most \<open>2\<^sup>-\<^sup>5\<^sup>4\<close>), but
  the sum of the two floats still rounds to \<open>1.0\<close>.
\<close>

theorem human_prob_complement:
  assumes "0 \<le> p" and "p \<le> 1"
  shows "human_prob_of (Finite p) = fsub (lit 1) (Finite p) \<and>
         fadd (Finite p) (human_prob_of (Finite p)) = Finite 1"
proof -
  have "0 \<le> 1 - p" "1 - p \<le> 1" using assms by simp_all
  then obtain h where h: "rnd (1 - p) = Finite h" "\<bar>h - (1 - p)\<bar> \<le> 1 / 2 ^ 54"
    using rnd_unit_error by blast
  have hp: "human_prob_of (Finite p) = Finite h"
    using h(1) by (simp add: human_prob_of_def fsub_def lit_one)
  have "rnd (p + h) = Finite 1"
    using h(2) by (intro rnd_near_one) linarith+
  then have "fadd (Finite p) (human_prob_of (Finite p)) = Finite 1"
    by (simp add: hp)
  moreover have "human_prob_of (Finite p) = fsub (lit 1) (Finite p)"
    by (simp add: human_prob_of_def)
  ultimately show ?thesis by simp
qed

theorem human_prob_complement_witness:
  "(0::rat) \<le> 1 / 2 ^ 60 \<and> (1::rat) / 2 ^ 60 \<le> 1 \<and>
   human_prob_of (Finite (1 / 2 ^ 60)) = fsub (lit 1) (Finite (1 / 2 ^ 60)) \<and>
   fadd (Finite (1 / 2 ^ 60)) (human_prob_of (Finite (1 / 2 ^ 60))) = Finite 1"
proof -
  have h1: "(0::rat) \<le> 1 / 2 ^ 60" and h2: "(1::rat) / 2 ^ 60 \<le> 1" by simp_all
  show ?thesis using h1 h2 human_prob_complement [OF h1 h2] by blast
qed

text \<open>
  C3. When the model output holds no item labelled "AI", \<open>predict_ai_probability\<close>
  returns 0.5 and raises nothing; when it holds one, its score is returned (the score of
  the last such item, if there are several).
\<close>

theorem predict_ai_probability_default:
  assumes "detector text = Inr (outputs # rest)"
  shows "((\<forall>it\<in>set outputs. label it \<noteq> py ''AI'') \<longrightarrow>
            predict_ai_probability detector text = Inr (Finite (1 / 2))) \<and>
         ((\<exists>it\<in>set outputs. label it = py ''AI'') \<longrightarrow>
            predict_ai_probability detector text
              = Inr (score (last (filter (\<lambda>it. label it = py ''AI'') outputs))))"
  using assms
  by (auto simp: predict_ai_probability_def dict_get_def lit_half
      scores_of_absent scores_of_present)

theorem predict_ai_probability_default_witness:
  "predict_ai_probability
     (\<lambda>t. Inr [[\<lparr>label = py ''Fake'', score = Finite (3 / 4)\<rparr>,
                 \<lparr>label = py ''Real'', score = Finite (1 / 4)\<rparr>]]) (py ''some text'')
     = Inr (Finite (1 / 2)) \<and>
   predict_ai_probability
     (\<lambda>t. Inr [[\<lparr>label = py ''AI'', score = Finite (3 / 4)\<rparr>,
                 \<lparr>label = py ''Human'', score = Finite (1 / 4)\<rparr>]]) (py ''some text'')
     = Inr (Finite (3 / 4))"
proof -
  let ?fake = "[\<lparr>label = py ''Fake'', score = Finite (3 / 4)\<rparr>,
                \<lparr>label = py ''Real'', score = Finite (1 / 4)\<rparr>]"
  let ?ai = "[\<lparr>label = py ''AI'', score = Finite (3 / 4)\<rparr>,
              \<lparr>label = py ''Human'', score = Finite (1 / 4)\<rparr>]"
  show ?thesis
    using predict_ai_probability_default
        [of "\<lambda>t. Inr [?fake]" "py ''some text''" "?fake" "[]"]
      predict_ai_probability_default
        [of "\<lambda>t. Inr [?ai]" "py ''some text''" "?ai" "[]"]
    by (simp add: py_def)
qed

text \<open>
  C4. When the analysis is triggered on a text that is empty or holds only whitespace,
  the page shows the warning and nothing else: the run contains no call of
  \<open>predict_ai_probability\<close> or \<open>estimate_confidence\<close> and no metric, whatever the
  detector would have answered.
\<close>

theorem blank_input_warns:
  "\<forall>c\<in>set user_text. isspace c \<Longrightarrow>
   analyze detector True user_text = Inr [Warning ''Please enter some text before analysis.'']"
  by (simp add: analyze_def truthy_strip_iff)

theorem blank_input_warns_witness:
  "isspace 32 \<and> isspace 10 \<and> isspace 9 \<and>
   analyze (\<lambda>t. Inl ModelFailure) True [32, 10, 9]
     = Inr [Warning ''Please enter some text before analysis.''] \<and>
   analyze (\<lambda>t. Inr [[\<lparr>label = py ''AI'', score = Finite 1\<rparr>]]) True []
     = Inr [Warning ''Please enter some text before analysis.'']"
proof -
  have h: "\<forall>c\<in>set [32, 10, 9]. isspace c" by (simp add: isspace_def)
  have e: "\<forall>c\<in>set ([] :: pystr). isspace c" by simp
  show ?thesis
    using h blank_input_warns [OF h, of "\<lambda>t. Inl ModelFailure"]
      blank_input_warns [OF e, of "\<lambda>t. Inr [[\<lparr>label = py ''AI'', score = Finite 1\<rparr>]]"]
    by simp
qed

text \<open>
  C5. For every text with fewer than 100 words and every probability, the tier returned
  by \<open>estimate_confidence\<close> is Low, whatever the margin is.
\<close>

theorem short_text_is_low:
  "word_count_of (estimate_confidence text ai_prob) < 100 \<Longrightarrow>
   confidence_of (estimate_confidence text ai_prob) = Low_Confidence"
  by (simp add: estimate_confidence_parts)

theorem short_text_is_low_witness:
  "word_count_of (estimate_confidence (sample_text 50) (Finite (1 / 2))) < 100 \<and>
   confidence_of (estimate_confidence (sample_text 50) (Finite (1 / 2))) = Low_Confidence \<and>
   word_count_of (estimate_confidence (sample_text 50) PosInf) < 100 \<and>
   confidence_of (estimate_confidence (sample_text 50) PosInf) = Low_Confidence"
proof -
  have h: "word_count_of (estimate_confidence (sample_text 50) p) < 100" for p
    by (simp add: estimate_confidence_parts word_count_sample_text)
  show ?thesis
    using h short_text_is_low [OF h, of "Finite (1 / 2)"] short_text_is_low [OF h, of PosInf]
    by simp
qed

text \<open>
  C6. For every text with at least 200 words and every probability whose margin is at
  least 0.2, the tier is High.
\<close>

theorem long_text_wide_margin_is_high:
  "200 \<le> word_count_of (estimate_confidence text ai_prob) \<Longrightarrow>
   fge (margin_of (estimate_confidence text ai_prob)) (lit (2 / 10)) \<Longrightarrow>
   confidence_of (estimate_confidence text ai_prob) = High_Confidence"
proof -
  assume wc: "200 \<le> word_count_of (estimate_confidence text ai_prob)"
    and m: "fge (margin_of (estimate_confidence text ai_prob)) (lit (2 / 10))"
  let ?m = "fabs (fsub ai_prob (lit (1 / 2)))"
  from m have 2: "\<not> flt ?m (lit (2 / 10))"
    by (simp add: estimate_confidence_parts fge_not_flt)
  then have 1: "\<not> flt ?m (lit (1 / 10))"
    using flt_0_1_imp_0_2 by blast
  from wc have "\<not> length (split text) < 100" "\<not> length (split text) < 200"
    by (simp_all add: estimate_confidence_parts)
  with 1 2 show ?thesis
    by (simp add: estimate_confidence_parts)
qed

theorem long_text_wide_margin_is_high_witness:
  "200 \<le> word_count_of (estimate_confidence (sample_text 250) (lit (95 / 100))) \<and>
   fge (margin_of (estimate_confidence (sample_text 250) (lit (95 / 100)))) (lit (2 / 10)) \<and>
   confidence_of (estimate_confidence (sample_text 250) (lit (95 / 100))) = High_Confidence"
proof -
  have 1: "200 \<le> word_count_of (estimate_confidence (sample_text 250) (lit (95 / 100)))"
    by (simp add: estimate_confidence_parts word_count_sample_text)
  have 2: "fge (margin_of (estimate_confidence (sample_text 250) (lit (95 / 100)))) (lit (2 / 10))"
    by (simp add: estimate_confidence_parts margin_evals float_evals)
  show ?thesis
    using 1 2 long_text_wide_margin_is_high [OF 1 2] by blast
qed

text \<open>
  C7, as stated: for every text and every \<open>d\<close>, \<open>estimate_confidence(text, 0.5 + d)\<close> and
  \<open>estimate_confidence(text, 0.5 - d)\<close> give the same margin, tier and indicators. This
  fails when forming \<open>0.5 + d\<close> or \<open>0.5 - d\<close> rounds. With a text of 200 words and
  \<open>d = 0.2\<close>, the sum \<open>0.5 + d\<close> is the float \<open>0.7\<close>, with margin
  \<open>0.19999999999999996\<close> and tier Medium, while \<open>0.5 - d\<close> is the float \<open>0.3\<close>, with
  margin \<open>0.2\<close> and tier High.
\<close>

theorem margin_symmetry_counterexample:
  "margin_of (estimate_confidence (sample_text 200) (fadd (lit (1 / 2)) (lit (2 / 10))))
     = Finite (900719925474099 / 4503599627370496) \<and>
   margin_of (estimate_confidence (sample_text 200) (fsub (lit (1 / 2)) (lit (2 / 10))))
     = Finite (3602879701896397 / 18014398509481984) \<and>
   confidence_of (estimate_confidence (sample_text 200) (fadd (lit (1 / 2)) (lit (2 / 10))))
     = Medium_Confidence \<and>
   confidence_of (estimate_confidence (sample_text 200) (fsub (lit (1 / 2)) (lit (2 / 10))))
     = High_Confidence"
  unfolding estimate_confidence_parts margin_evals word_count_sample_text
  by (simp add: float_evals)

text \<open>
  C7, amended: for every text and every finite \<open>d\<close> for which \<open>0.5 + d\<close> and \<open>0.5 - d\<close>
  are formed without rounding, \<open>estimate_confidence(text, 0.5 + d)\<close> and
  \<open>estimate_confidence(text, 0.5 - d)\<close> return the same tuple: the same margin, tier and
  indicators.
\<close>

theorem margin_symmetry_exact:
  assumes "fadd (lit (1 / 2)) (Finite d) = Finite (1 / 2 + d)"
    and "fsub (lit (1 / 2)) (Finite d) = Finite (1 / 2 - d)"
  shows "estimate_confidence text (fadd (lit (1 / 2)) (Finite d))
       = estimate_confidence text (fsub (lit (1 / 2)) (Finite d))"
proof -
  have "fabs (fsub (Finite (1 / 2 + d)) (lit (1 / 2))) = fabs (rnd d)"
    by (simp add: fsub_def lit_half)
  moreover have "fabs (fsub (Finite (1 / 2 - d)) (lit (1 / 2))) = fabs (rnd (- d))"
    by (simp add: fsub_def lit_half)
  ultimately have "fabs (fsub (Finite (1 / 2 + d)) (lit (1 / 2)))
      = fabs (fsub (Finite (1 / 2 - d)) (lit (1 / 2)))"
    by (simp add: rnd_minus fabs_fneg)
  then show ?thesis
    unfolding assms by (simp add: estimate_confidence_def)
qed

theorem margin_symmetry_exact_witness:
  "fadd (lit (1 / 2)) (Finite (1 / 4)) = Finite (1 / 2 + 1 / 4) \<and>
   fsub (lit (1 / 2)) (Finite (1 / 4)) = Finite (1 / 2 - 1 / 4) \<and>
   estimate_confidence (sample_text 250) (fadd (lit (1 / 2)) (Finite (1 / 4)))
     = estimate_confidence (sample_text 250) (fsub (lit (1 / 2)) (Finite (1 / 4)))"
proof -
  have 1: "fadd (lit (1 / 2)) (Finite (1 / 4)) = Finite (1 / 2 + 1 / 4)"
    by (simp add: float_evals)
  have 2: "fsub (lit (1 / 2)) (Finite (1 / 4)) = Finite (1 / 2 - 1 / 4)"
    by (simp add: float_evals)
  show ?thesis
    using 1 2 margin_symmetry_exact [OF 1 2] by blast
qed

text \<open>
  C8. The threshold 0.15 of the "Low prediction margin" indicator plays no role in the
  tier: two inputs with the same word count that agree on \<open>margin < 0.1\<close> and on
  \<open>margin < 0.2\<close> get the same tier, also when they disagree on \<open>margin < 0.15\<close>.
\<close>

theorem tier_independent_of_0_15:
  "word_count_of (estimate_confidence text1 p1) = word_count_of (estimate_confidence text2 p2) \<Longrightarrow>
   flt (margin_of (estimate_confidence text1 p1)) (lit (1 / 10))
     = flt (margin_of (estimate_confidence text2 p2)) (lit (1 / 10)) \<Longrightarrow>
   flt (margin_of (estimate_confidence text1 p1)) (lit (2 / 10))
     = flt (margin_of (estimate_confidence text2 p2)) (lit (2 / 10)) \<Longrightarrow>
   confidence_of (estimate_confidence text1 p1) = confidence_of (estimate_confidence text2 p2)"
  by (simp add: estimate_confidence_parts)

theorem tier_independent_of_0_15_witness:
  "word_count_of (estimate_confidence (sample_text 250) (lit (62 / 100)))
     = word_count_of (estimate_confidence (sample_text 250) (lit (67 / 100))) \<and>
   flt (margin_of (estimate_confidence (sample_text 250) (lit (62 / 100)))) (lit (1 / 10))
     = flt (margin_of (estimate_confidence (sample_text 250) (lit (67 / 100)))) (lit (1 / 10)) \<and>
   flt (margin_of (estimate_confidence (sample_text 250) (lit (62 / 100)))) (lit (2 / 10))
     = flt (margin_of (estimate_confidence (sample_text 250) (lit (67 / 100)))) (lit (2 / 10)) \<and>
   low_prediction_margin (indicators_of (estimate_confidence (sample_text 250) (lit (62 / 100)))) \<and>
   \<not> low_prediction_margin (indicators_of (estimate_confidence (sample_text 250) (lit (67 / 100)))) \<and>
   confidence_of (estimate_confidence (sample_text 250) (lit (62 / 100)))
     = confidence_of (estimate_confidence (sample_text 250) (lit (67 / 100)))"
proof -
  let ?a = "estimate_confidence (sample_text 250) (lit (62 / 100))"
  let ?b = "estimate_confidence (sample_text 250) (lit (67 / 100))"
  have 1: "word_count_of ?a = word_count_of ?b"
    by (simp add: estimate_confidence_parts)
  have 2: "flt (margin_of ?a) (lit (1 / 10)) = flt (margin_of ?b) (lit (1 / 10))"
    by (simp add: estimate_confidence_parts margin_evals float_evals)
  have 3: "flt (margin_of ?a) (lit (2 / 10)) = flt (margin_of ?b) (lit (2 / 10))"
    by (simp add: estimate_confidence_parts margin_evals float_evals)
  have 4: "low_prediction_margin (indicators_of ?a)"
    by (simp add: estimate_confidence_parts margin_evals float_evals)
  have 5: "\<not> low_prediction_margin (indicators_of ?b)"
    by (simp add: estimate_confidence_parts margin_evals float_evals)
  show ?thesis
    using 1 2 3 4 5 tier_independent_of_0_15 [OF 1 2 3] by blast
qed

text \<open>
  C9. \<open>estimate_confidence\<close> is total: for every text and every float it returns one of
  the three tiers (\<open>split\<close> terminates on every string, and no operation on a float
  raises). A text that is empty or holds only whitespace has word count 0 and gets the
  tier Low.
\<close>

theorem estimate_confidence_total:
  "confidence_of (estimate_confidence text ai_prob)
     \<in> {Low_Confidence, Medium_Confidence, High_Confidence} \<and>
   ((\<forall>c\<in>set text. isspace c) \<longrightarrow>
      word_count_of (estimate_confidence text ai_prob) = 0 \<and>
      confidence_of (estimate_confidence text ai_prob) = Low_Confidence)"
proof -
  have "confidence_of (estimate_confidence text ai_prob)
          \<in> {Low_Confidence, Medium_Confidence, High_Confidence}"
    by (cases "confidence_of (estimate_confidence text ai_prob)") simp_all
  moreover have "word_count_of (estimate_confidence text ai_prob) = 0"
    and "confidence_of (estimate_confidence text ai_prob) = Low_Confidence"
    if "\<forall>c\<in>set text. isspace c"
  proof -
    from that have "split text = []" by (simp add: split_empty_iff)
    then show "word_count_of (estimate_confidence text ai_prob) = 0"
      and "confidence_of (estimate_confidence text ai_prob) = Low_Confidence"
      by (simp_all add: estimate_confidence_parts)
  qed
  ultimately show ?thesis by blast
qed

theorem estimate_confidence_total_witness:
  "isspace 32 \<and> isspace 9 \<and> isspace 10 \<and> isspace 12288 \<and>
   confidence_of (estimate_confidence [32, 9, 10, 12288] NaN)
     \<in> {Low_Confidence, Medium_Confidence, High_Confidence} \<and>
   word_count_of (estimate_confidence [32, 9, 10, 12288] NaN) = 0 \<and>
   confidence_of (estimate_confidence [32, 9, 10, 12288] NaN) = Low_Confidence \<and>
   word_count_of (estimate_confidence [] (Finite 1)) = 0 \<and>
   confidence_of (estimate_confidence [] (Finite 1)) = Low_Confidence"
proof -
  have h: "isspace 32 \<and> isspace 9 \<and> isspace 10 \<and> isspace 12288"
    by (simp add: isspace_def)
  show ?thesis
    using h estimate_confidence_total [of "[32, 9, 10, 12288]" NaN]
      estimate_confidence_total [of "[]" "Finite 1"]
    by simp
qed

text \<open>
  C10. Whenever the tier is High, the three indicators are all false; so an input with
  a true indicator has the tier Low or Medium.
\<close>

theorem high_has_no_indicator:
  "confidence_of (estimate_confidence text ai_prob) = High_Confidence \<Longrightarrow>
   \<not> short_text_length (indicators_of (estimate_confidence text ai_prob)) \<and>
   \<not> prediction_near_50 (indicators_of (estimate_confidence text ai_prob)) \<and>
   \<not> low_prediction_margin (indicators_of (estimate_confidence text ai_prob))"
proof -
  assume h: "confidence_of (estimate_confidence text ai_prob) = High_Confidence"
  let ?m = "fabs (fsub ai_prob (lit (1 / 2)))"
  from h have a: "\<not> length (split text) < 100" and b: "\<not> flt ?m (lit (1 / 10))"
    and c: "\<not> flt ?m (lit (2 / 10))"
    by (auto simp: estimate_confidence_parts split: if_splits)
  from c have "\<not> flt ?m (lit (15 / 100))"
    using flt_0_15_imp_0_2 by blast
  with a b show ?thesis
    by (simp add: estimate_confidence_parts)
qed

theorem high_has_no_indicator_witness:
  "confidence_of (estimate_confidence (sample_text 250) (lit (95 / 100))) = High_Confidence \<and>
   \<not> short_text_length (indicators_of (estimate_confidence (sample_text 250) (lit (95 / 100)))) \<and>
   \<not> prediction_near_50 (indicators_of (estimate_confidence (sample_text 250) (lit (95 / 100)))) \<and>
   \<not> low_prediction_margin (indicators_of (estimate_confidence (sample_text 250) (lit (95 / 100))))"
proof -
  have h: "confidence_of (estimate_confidence (sample_text 250) (lit (95 / 100))) = High_Confidence"
    by (simp add: estimate_confidence_parts word_count_sample_text margin_evals float_evals)
  show ?thesis
    using h high_has_no_indicator [OF h] by blast
qed

end
